theory Spec2Isabelle
  imports Complex_Main "HOL-Library.Char_ord" "HOL-Library.List_Lexorder"
begin

section \<open>Python values\<close>

text \<open>
  The encoders of \<^verbatim>\<open>json_encoders.py\<close> walk a tree of Python objects. A Python
  \<^verbatim>\<open>str\<close> is modelled as a \<^typ>\<open>string\<close> whose characters are code points below 256;
  Python compares strings by code point, which is the lexicographic order on
  \<^typ>\<open>char list\<close>. A Python \<^verbatim>\<open>int\<close> is an unbounded \<^typ>\<open>int\<close>.
\<close>

datatype pyerror = TypeError | ValueError | OverflowError | AttributeError | IndexError

text \<open>
  A \<^verbatim>\<open>float\<close> object: its numeric value, and the text \<^verbatim>\<open>float.__repr__\<close> gives
  for it (the interpreter's shortest round-trip representation, which is not computed
  here but carried by the object: \<^verbatim>\<open>2.0\<close> is \<open>Float (Finite 2) ''2.0''\<close>).
\<close>

datatype float_value = NaN | Infinity | NegInfinity | Finite rat

datatype pyfloat = Float (float_value: float_value) (float_repr: string)

text \<open>
  A \<^verbatim>\<open>decimal.Decimal\<close> object: sign, coefficient and exponent (the value is
  \<open>\<plusminus> coefficient * 10 ^ exponent\<close>), and the float \<^verbatim>\<open>float(obj)\<close> converts it to
  (the interpreter's correctly rounded double, carried by the object).
\<close>

datatype decimal =
    Decimal (negative: bool) (coefficient: nat) (exponent: int) (as_float: pyfloat)
  | DecimalInfinity bool
  | DecimalNaN

datatype pyval =
    PyNone
  | PyBool bool
  | PyInt int
  | PyFloat pyfloat
  | PyStr string
  | PyDecimal decimal
  | PyList "pyval list"
  | PyDict "(string \<times> pyval) list"

text \<open>
  \<open>PyList\<close> stands for \<^verbatim>\<open>list\<close> and \<^verbatim>\<open>tuple\<close> alike (the encoders test
  \<^verbatim>\<open>isinstance(obj, (list, tuple))\<close>). \<open>PyDict\<close> lists the items of a \<^verbatim>\<open>dict\<close>
  with string keys in insertion order; a Python dict has no key twice.
\<close>

subsection \<open>Characters and numerals\<close>

definition dquote :: char where
  "dquote = CHR 0x22"

definition backslash :: char where
  "backslash = CHR 0x5C"

definition squote :: char where
  "squote = CHR 0x27"

definition newline :: string where
  "newline = [CHR 0x0A]"

definition hex_digit :: "nat \<Rightarrow> char" where
  "hex_digit d = ''0123456789abcdef'' ! (d mod 16)"

fun nat_repr :: "nat \<Rightarrow> string" where
  "nat_repr n = (if n < 10 then [hex_digit n] else nat_repr (n div 10) @ [hex_digit (n mod 10)])"

declare nat_repr.simps [simp del]

text \<open>\<^verbatim>\<open>int.__repr__\<close>: decimal digits, a minus sign for a negative number.\<close>

definition int_repr :: "int \<Rightarrow> string" where
  "int_repr i = (if i < 0 then CHR ''-'' # nat_repr (nat (- i)) else nat_repr (nat i))"

text \<open>\<^verbatim>\<open>s * n\<close> for a string and an int: empty when \<open>n \<le> 0\<close>.\<close>

definition str_mul :: "string \<Rightarrow> int \<Rightarrow> string" where
  "str_mul s n = concat (replicate (nat n) s)"

text \<open>\<^verbatim>\<open>sep.join(parts)\<close> for a list of strings.\<close>

fun join :: "string \<Rightarrow> string list \<Rightarrow> string" where
  "join sep [] = []"
| "join sep [x] = x"
| "join sep (x # y # ys) = x @ sep @ join sep (y # ys)"

subsection \<open>Floats and decimals\<close>

text \<open>\<^verbatim>\<open>int(o)\<close> for a finite float truncates towards zero.\<close>

definition trunc :: "rat \<Rightarrow> int" where
  "trunc r = (if r < 0 then \<lceil>r\<rceil> else \<lfloor>r\<rfloor>)"

text \<open>
  \<^verbatim>\<open>int(obj)\<close> for a Decimal: truncation towards zero; \<^verbatim>\<open>ValueError\<close> for NaN,
  \<^verbatim>\<open>OverflowError\<close> for an infinity.
\<close>

fun decimal_int :: "decimal \<Rightarrow> pyerror + int" where
  "decimal_int (Decimal s c e f) =
     Inr ((if s then - 1 else 1) *
          (if 0 \<le> e then int c * 10 ^ nat e else int c div 10 ^ nat (- e)))"
| "decimal_int (DecimalInfinity s) = Inl OverflowError"
| "decimal_int DecimalNaN = Inl ValueError"

text \<open>\<^verbatim>\<open>obj == i\<close> for a Decimal and an int compares the exact values.\<close>

fun decimal_eq_int :: "decimal \<Rightarrow> int \<Rightarrow> bool" where
  "decimal_eq_int (Decimal s c e f) i =
     (if 0 \<le> e then (if s then - 1 else 1) * int c * 10 ^ nat e = i
      else (if s then - 1 else 1) * int c = i * 10 ^ nat (- e))"
| "decimal_eq_int (DecimalInfinity s) i = False"
| "decimal_eq_int DecimalNaN i = False"

text \<open>
  \<^verbatim>\<open>Decimal.__str__\<close> (capitals on, as in the default context): plain notation while
  the exponent is at most 0 and more than -6 digits stand left of the point,
  scientific notation otherwise.
\<close>

fun decimal_str :: "decimal \<Rightarrow> string" where
  "decimal_str (Decimal s c e f) =
     (let sign = (if s then ''-'' else '''');
          digits = nat_repr c;
          leftdigits = e + int (length digits);
          dotplace = (if e \<le> 0 \<and> - 6 < leftdigits then leftdigits else 1);
          intpart = (if dotplace \<le> 0 then ''0''
                     else if int (length digits) \<le> dotplace
                       then digits @ str_mul ''0'' (dotplace - int (length digits))
                     else take (nat dotplace) digits);
          fracpart = (if dotplace \<le> 0 then ''.'' @ str_mul ''0'' (- dotplace) @ digits
                      else if int (length digits) \<le> dotplace then ''''
                      else ''.'' @ drop (nat dotplace) digits);
          exp = (if leftdigits = dotplace then ''''
                 else ''E'' @ (if 0 \<le> leftdigits - dotplace then ''+'' else '''')
                        @ int_repr (leftdigits - dotplace))
      in sign @ intpart @ fracpart @ exp)"
| "decimal_str (DecimalInfinity s) = (if s then ''-Infinity'' else ''Infinity'')"
| "decimal_str DecimalNaN = ''NaN''"

section \<open>The standard library's JSON text of scalars\<close>

text \<open>
  \<^verbatim>\<open>json.encoder.ESCAPE_DCT\<close>: the named escapes; every other character below 0x20
  maps to its \<^verbatim>\<open>\u00XX\<close> form.
\<close>

definition u_escape :: "nat \<Rightarrow> string" where
  "u_escape n = [backslash, CHR ''u'', hex_digit (n div 4096), hex_digit (n div 256),
                 hex_digit (n div 16), hex_digit n]"

definition ESCAPE_DCT :: "char \<Rightarrow> string option" where
  "ESCAPE_DCT c =
     (if c = backslash then Some [backslash, backslash]
      else if c = dquote then Some [backslash, dquote]
      else if c = CHR 0x08 then Some [backslash, CHR ''b'']
      else if c = CHR 0x0C then Some [backslash, CHR ''f'']
      else if c = CHR 0x0A then Some [backslash, CHR ''n'']
      else if c = CHR 0x0D then Some [backslash, CHR ''r'']
      else if c = CHR 0x09 then Some [backslash, CHR ''t'']
      else if (of_char c :: nat) < 0x20 then Some (u_escape (of_char c))
      else None)"

text \<open>
  \<^verbatim>\<open>encode_basestring_ascii\<close>: the pattern \<^verbatim>\<open>([\\"]|[^\ -~])\<close> selects the
  characters to replace, by their \<^verbatim>\<open>ESCAPE_DCT\<close> entry or else by \<^verbatim>\<open>\uXXXX\<close>.
\<close>

definition escape_ascii :: "char \<Rightarrow> string" where
  "escape_ascii c =
     (if c = backslash \<or> c = dquote \<or> \<not> (0x20 \<le> (of_char c :: nat) \<and> (of_char c :: nat) \<le> 0x7E)
      then (case ESCAPE_DCT c of Some s \<Rightarrow> s | None \<Rightarrow> u_escape (of_char c))
      else [c])"

definition encode_basestring_ascii :: "string \<Rightarrow> string" where
  "encode_basestring_ascii s = [dquote] @ concat (map escape_ascii s) @ [dquote]"

text \<open>
  \<^verbatim>\<open>encode_basestring\<close>: the pattern \<^verbatim>\<open>[\x00-\x1f\\"\b\f\n\r\t]\<close>; every match
  has an \<^verbatim>\<open>ESCAPE_DCT\<close> entry.
\<close>

definition escape_plain :: "char \<Rightarrow> string" where
  "escape_plain c =
     (if (of_char c :: nat) < 0x20 \<or> c = backslash \<or> c = dquote
      then (case ESCAPE_DCT c of Some s \<Rightarrow> s | None \<Rightarrow> [c])
      else [c])"

definition encode_basestring :: "string \<Rightarrow> string" where
  "encode_basestring s = [dquote] @ concat (map escape_plain s) @ [dquote]"

text \<open>
  The stock \<^verbatim>\<open>floatstr\<close> of \<^verbatim>\<open>json.JSONEncoder.iterencode\<close>: the three non-finite
  tokens, refused when \<^verbatim>\<open>allow_nan\<close> is off, and \<^verbatim>\<open>float.__repr__\<close> otherwise.
\<close>

definition stock_floatstr :: "bool \<Rightarrow> pyfloat \<Rightarrow> pyerror + string" where
  "stock_floatstr allow x =
     (case float_value x of
        NaN \<Rightarrow> if allow then Inr ''NaN'' else Inl ValueError
      | Infinity \<Rightarrow> if allow then Inr ''Infinity'' else Inl ValueError
      | NegInfinity \<Rightarrow> if allow then Inr ''-Infinity'' else Inl ValueError
      | Finite r \<Rightarrow> Inr (float_repr x))"

section \<open>Exceptions and loops\<close>

text \<open>
  A raising computation returns \<open>Inl\<close> of the error; \<open>bind\<close> runs the next step on a
  result and lets an error pass, as an exception unwinds the caller.
\<close>

fun bind :: "'e + 'a \<Rightarrow> ('a \<Rightarrow> 'e + 'b) \<Rightarrow> 'e + 'b" where
  "bind (Inl e) f = Inl e"
| "bind (Inr x) f = f x"

text \<open>
  A list comprehension \<^verbatim>\<open>[f(x) for x in xs]\<close> whose body may raise and changes the
  encoder: the elements are visited in order, each from the state the one before left.
\<close>

fun for_each :: "('s \<Rightarrow> 'a \<Rightarrow> 'e + ('b \<times> 's)) \<Rightarrow> 's \<Rightarrow> 'a list \<Rightarrow> 'e + ('b list \<times> 's)" where
  "for_each f s [] = Inr ([], s)"
| "for_each f s (x # xs) =
     bind (f s x) (\<lambda>(y, s'). bind (for_each f s' xs) (\<lambda>(ys, s''). Inr (y # ys, s'')))"

text \<open>A \<^verbatim>\<open>for\<close> loop over a list whose body updates the loop's variables and may raise.\<close>

fun for_loop :: "('s \<Rightarrow> 'a \<Rightarrow> 'e + 's) \<Rightarrow> 's \<Rightarrow> 'a list \<Rightarrow> 'e + 's" where
  "for_loop f s [] = Inr s"
| "for_loop f s (x # xs) = bind (f s x) (\<lambda>s'. for_loop f s' xs)"

text \<open>\<^verbatim>\<open>[f(x) for x in xs]\<close> for a body with no effect on the encoder.\<close>

fun map_results :: "('a \<Rightarrow> 'e + 'b) \<Rightarrow> 'a list \<Rightarrow> 'e + 'b list" where
  "map_results f [] = Inr []"
| "map_results f (x # xs) = bind (f x) (\<lambda>y. bind (map_results f xs) (\<lambda>ys. Inr (y # ys)))"

lemma bind_cong [fundef_cong]:
  "m = m' \<Longrightarrow> (\<And>x. m' = Inr x \<Longrightarrow> f x = f' x) \<Longrightarrow> bind m f = bind m' f'"
  by (cases m') auto

lemma for_each_cong [fundef_cong]:
  "xs = ys \<Longrightarrow> s = t \<Longrightarrow> (\<And>u x. x \<in> set ys \<Longrightarrow> f u x = g u x)
   \<Longrightarrow> for_each f s xs = for_each g t ys"
proof (induction ys arbitrary: xs s t)
  case Nil
  then show ?case by simp
next
  case (Cons y ys)
  have step: "for_each f u ys = for_each g u ys" for u
    using Cons.IH [of ys u u] Cons.prems(3) by simp
  show ?case
    using Cons.prems by (simp add: step)
qed

lemma for_loop_cong [fundef_cong]:
  "xs = ys \<Longrightarrow> s = t \<Longrightarrow> (\<And>u x. x \<in> set ys \<Longrightarrow> f u x = g u x)
   \<Longrightarrow> for_loop f s xs = for_loop g t ys"
proof (induction ys arbitrary: xs s t)
  case Nil
  then show ?case by simp
next
  case (Cons y ys)
  have step: "for_loop f u ys = for_loop g u ys" for u
    using Cons.IH [of ys u u] Cons.prems(3) by simp
  show ?case
    using Cons.prems by (simp add: step)
qed

lemma size_item_less:
  "(k, v) \<in> set kvs \<Longrightarrow> size v < Suc (size_list (size_prod (\<lambda>x. 0) size) kvs)"
  by (induction kvs) auto

lemma size_element_less:
  "x \<in> set xs \<Longrightarrow> size x < Suc (size_list size xs)"
  by (induction xs) auto

lemma map_results_cong [fundef_cong]:
  "xs = ys \<Longrightarrow> (\<And>x. x \<in> set ys \<Longrightarrow> f x = g x) \<Longrightarrow> map_results f xs = map_results g ys"
  by (induction ys arbitrary: xs) auto

section \<open>The standard library's encoder\<close>

text \<open>
  The attributes of a \<^verbatim>\<open>json.JSONEncoder\<close> that the encoders read. \<open>indent\<close> is
  \<^verbatim>\<open>None\<close> or a number of spaces. \<open>has_c_make_encoder\<close> is not an attribute of the object
  but of the interpreter: whether \<^verbatim>\<open>json.encoder.c_make_encoder\<close> is there (it is in
  CPython).
\<close>

record json_encoder =
  ensure_ascii :: bool
  allow_nan :: bool
  sort_keys :: bool
  indent :: "int option"
  item_separator :: string
  key_separator :: string
  has_c_make_encoder :: bool

text \<open>
  \<^verbatim>\<open>JSONEncoder.__init__\<close>: the separators are \<^verbatim>\<open>', '\<close> and \<^verbatim>\<open>': '\<close>, or the pair
  given, or \<^verbatim>\<open>','\<close> and \<^verbatim>\<open>': '\<close> when an indent is given with no separators.
\<close>

definition JSONEncoder_init ::
  "bool \<Rightarrow> bool \<Rightarrow> bool \<Rightarrow> int option \<Rightarrow> (string \<times> string) option \<Rightarrow> bool \<Rightarrow> json_encoder" where
  "JSONEncoder_init ascii nan sortk ind separators accel =
     \<lparr> ensure_ascii = ascii, allow_nan = nan, sort_keys = sortk, indent = ind,
       item_separator = (case separators of Some (i, k) \<Rightarrow> i
                         | None \<Rightarrow> if ind \<noteq> None then '','' else '', ''),
       key_separator = (case separators of Some (i, k) \<Rightarrow> k | None \<Rightarrow> '': ''),
       has_c_make_encoder = accel \<rparr>"

definition str_encoder :: "'a json_encoder_scheme \<Rightarrow> string \<Rightarrow> string" where
  "str_encoder E s = (if ensure_ascii E then encode_basestring_ascii s else encode_basestring s)"

text \<open>
  \<^verbatim>\<open>_make_iterencode\<close>, the Python implementation: \<open>floatstr\<close> is the float
  formatter it is given, \<open>lvl\<close> the current indent level. The chunks it yields are
  joined here. An object of another type goes to \<^verbatim>\<open>default\<close>, which raises
  \<^verbatim>\<open>TypeError\<close>.
\<close>

function make_iterencode ::
  "(pyfloat \<Rightarrow> pyerror + string) \<Rightarrow> 'a json_encoder_scheme \<Rightarrow> int \<Rightarrow> pyval \<Rightarrow> pyerror + string" where
  "make_iterencode floatstr E lvl (PyStr s) = Inr (str_encoder E s)"
| "make_iterencode floatstr E lvl PyNone = Inr ''null''"
| "make_iterencode floatstr E lvl (PyBool b) = Inr (if b then ''true'' else ''false'')"
| "make_iterencode floatstr E lvl (PyInt i) = Inr (int_repr i)"
| "make_iterencode floatstr E lvl (PyFloat f) = floatstr f"
| "make_iterencode floatstr E lvl (PyDecimal d) = Inl TypeError"
| "make_iterencode floatstr E lvl (PyList lst) =
     (if lst = [] then Inr ''[]''
      else
        (case indent E of
           Some w \<Rightarrow>
             (let newline_indent = newline @ str_mul (str_mul '' '' w) (lvl + 1);
                  separator = item_separator E @ newline_indent
              in bind (map_results (make_iterencode floatstr E (lvl + 1)) lst)
                   (\<lambda>chunks. Inr (''['' @ newline_indent @ join separator chunks
                                 @ newline @ str_mul (str_mul '' '' w) lvl @ '']'')))
         | None \<Rightarrow>
             bind (map_results (make_iterencode floatstr E lvl) lst)
               (\<lambda>chunks. Inr (''['' @ join (item_separator E) chunks @ '']''))))"
| "make_iterencode floatstr E lvl (PyDict dct) =
     (if dct = [] then Inr ''{}''
      else
        (let items = (if sort_keys E then sort_key fst dct else dct) in
         case indent E of
           Some w \<Rightarrow>
             (let newline_indent = newline @ str_mul (str_mul '' '' w) (lvl + 1);
                  separator = item_separator E @ newline_indent
              in bind (map_results
                         (\<lambda>(key, v). bind (make_iterencode floatstr E (lvl + 1) v)
                            (\<lambda>chunk. Inr (str_encoder E key @ key_separator E @ chunk))) items)
                   (\<lambda>chunks. Inr (''{'' @ newline_indent @ join separator chunks
                                 @ newline @ str_mul (str_mul '' '' w) lvl @ ''}'')))
         | None \<Rightarrow>
             bind (map_results
                     (\<lambda>(key, v). bind (make_iterencode floatstr E lvl v)
                        (\<lambda>chunk. Inr (str_encoder E key @ key_separator E @ chunk))) items)
               (\<lambda>chunks. Inr (''{'' @ join (item_separator E) chunks @ ''}''))))"
  by pat_completeness auto
termination
  by (relation "measure (\<lambda>(floatstr, E, lvl, x). size x)")
     (auto dest: size_item_less size_element_less split: if_splits)

text \<open>
  The C accelerator's encoder, called only with no indent. It is not given a float
  formatter: it writes a finite float with \<^verbatim>\<open>float.__repr__\<close> and the non-finite
  ones as the stock \<^verbatim>\<open>floatstr\<close> does; everything else is the text of the Python
  implementation.
\<close>

definition c_make_encoder :: "'a json_encoder_scheme \<Rightarrow> pyval \<Rightarrow> pyerror + string" where
  "c_make_encoder E x = make_iterencode (stock_floatstr (allow_nan E)) E 0 x"

text \<open>\<^verbatim>\<open>JSONEncoder.iterencode\<close> as the standard library has it.\<close>

definition JSONEncoder_iterencode :: "'a json_encoder_scheme \<Rightarrow> pyval \<Rightarrow> bool \<Rightarrow> pyerror + string" where
  "JSONEncoder_iterencode E x one_shot =
     (if one_shot \<and> has_c_make_encoder E \<and> indent E = None then c_make_encoder E x
      else make_iterencode (stock_floatstr (allow_nan E)) E 0 x)"

text \<open>
  \<^verbatim>\<open>JSONEncoder.encode\<close>: a string at once, anything else through the object's own
  \<^verbatim>\<open>iterencode\<close> in one shot.
\<close>

definition JSONEncoder_encode ::
  "('a json_encoder_scheme \<Rightarrow> pyval \<Rightarrow> bool \<Rightarrow> pyerror + string) \<Rightarrow> 'a json_encoder_scheme \<Rightarrow> pyval
   \<Rightarrow> pyerror + string" where
  "JSONEncoder_encode iterencode E x =
     (case x of PyStr s \<Rightarrow> Inr (str_encoder E s) | _ \<Rightarrow> iterencode E x True)"

text \<open>\<^verbatim>\<open>json.dumps(key)\<close> with no options: the module's default encoder.\<close>

definition json_dumps :: "pyval \<Rightarrow> pyerror + string" where
  "json_dumps x =
     JSONEncoder_encode JSONEncoder_iterencode (JSONEncoder_init True True False None None True) x"

section \<open>Python's text of an object\<close>

text \<open>
  \<^verbatim>\<open>repr\<close> of a string: single quotes, or double quotes when the string holds a
  single quote and no double quote; backslash, the quote, tab, newline and return are
  escaped, and every other character that is not printable is written \<^verbatim>\<open>\xNN\<close>.
  Below 256 the printable characters are 0x20 to 0x7E and 0xA1 to 0xFF without 0xAD.
\<close>

definition printable :: "char \<Rightarrow> bool" where
  "printable c = ((0x20 \<le> (of_char c :: nat) \<and> (of_char c :: nat) < 0x7F)
                  \<or> (0xA1 \<le> (of_char c :: nat) \<and> (of_char c :: nat) \<noteq> 0xAD))"

definition repr_char :: "char \<Rightarrow> char \<Rightarrow> string" where
  "repr_char quote c =
     (if c = quote \<or> c = backslash then [backslash, c]
      else if c = CHR 0x09 then [backslash, CHR ''t'']
      else if c = CHR 0x0A then [backslash, CHR ''n'']
      else if c = CHR 0x0D then [backslash, CHR ''r'']
      else if \<not> printable c
        then [backslash, CHR ''x'', hex_digit (of_char c div 16), hex_digit (of_char c)]
      else [c])"

definition str_repr :: "string \<Rightarrow> string" where
  "str_repr s =
     (let quote = (if squote \<in> set s \<and> dquote \<notin> set s then dquote else squote)
      in [quote] @ concat (map (repr_char quote) s) @ [quote])"

text \<open>\<^verbatim>\<open>repr(x)\<close>; a sequence is written as a list.\<close>

fun py_repr :: "pyval \<Rightarrow> string" where
  "py_repr PyNone = ''None''"
| "py_repr (PyBool b) = (if b then ''True'' else ''False'')"
| "py_repr (PyInt i) = int_repr i"
| "py_repr (PyFloat f) = float_repr f"
| "py_repr (PyStr s) = str_repr s"
| "py_repr (PyDecimal d) = ''Decimal('' @ [squote] @ decimal_str d @ [squote] @ '')''"
| "py_repr (PyList xs) = ''['' @ join '', '' (map py_repr xs) @ '']''"
| "py_repr (PyDict kvs) =
     ''{'' @ join '', '' (map (\<lambda>(k, v). str_repr k @ '': '' @ py_repr v) kvs) @ ''}''"

text \<open>\<^verbatim>\<open>str(x)\<close>, which is what an f-string field \<^verbatim>\<open>{x}\<close> writes.\<close>

definition py_str :: "pyval \<Rightarrow> string" where
  "py_str x = (case x of PyStr s \<Rightarrow> s | PyDecimal d \<Rightarrow> decimal_str d | _ \<Rightarrow> py_repr x)"

text \<open>\<^verbatim>\<open>s + x\<close> for a string \<open>s\<close>: \<^verbatim>\<open>TypeError\<close> unless \<open>x\<close> is a string.\<close>

definition str_add :: "string \<Rightarrow> pyval \<Rightarrow> pyerror + string" where
  "str_add s x = (case x of PyStr t \<Rightarrow> Inr (s @ t) | _ \<Rightarrow> Inl TypeError)"

text \<open>\<^verbatim>\<open>sep.join(xs)\<close> for a list of objects: \<^verbatim>\<open>TypeError\<close> unless all are strings.\<close>

definition str_join :: "string \<Rightarrow> pyval list \<Rightarrow> pyerror + string" where
  "str_join sep xs =
     bind (map_results (\<lambda>x. case x of PyStr t \<Rightarrow> Inr t | _ \<Rightarrow> Inl TypeError) xs)
       (\<lambda>parts. Inr (join sep parts))"

text \<open>\<^verbatim>\<open>layer[-1].append(x)\<close>: \<^verbatim>\<open>IndexError\<close> on an empty \<open>layer\<close>.\<close>

definition append_last :: "'a list list \<Rightarrow> 'a \<Rightarrow> pyerror + 'a list list" where
  "append_last layer x =
     (if layer = [] then Inl IndexError else Inr (butlast layer @ [last layer @ [x]]))"

section \<open>The QMK encoders\<close>

text \<open>
  \<^verbatim>\<open>QMKJSONEncoder\<close> adds \<^verbatim>\<open>indentation_level\<close> to the attributes of a
  \<^verbatim>\<open>JSONEncoder\<close>. The class of the object decides which \<^verbatim>\<open>encode_list\<close>,
  \<^verbatim>\<open>encode_dict\<close> and \<^verbatim>\<open>sort_dict\<close> a call reaches.
\<close>

record qmk_encoder = json_encoder +
  indentation_level :: int

datatype printer = QMKJSONEncoder | InfoJSONEncoder | KeymapJSONEncoder

text \<open>\<^verbatim>\<open>not self.indent\<close>: true of \<^verbatim>\<open>None\<close> and of 0.\<close>

definition falsy :: "int option \<Rightarrow> bool" where
  "falsy ind = (case ind of None \<Rightarrow> True | Some w \<Rightarrow> w = 0)"

definition QMKJSONEncoder_init ::
  "bool \<Rightarrow> bool \<Rightarrow> bool \<Rightarrow> int option \<Rightarrow> (string \<times> string) option \<Rightarrow> bool \<Rightarrow> qmk_encoder" where
  "QMKJSONEncoder_init ascii nan sortk ind separators accel =
     (let self = json_encoder.extend (JSONEncoder_init ascii nan sortk ind separators accel)
                   (qmk_encoder.fields 0)
      in if falsy (indent self) then self\<lparr>indent := Some 4\<rparr> else self)"

text \<open>
  The property \<^verbatim>\<open>indent_str\<close>:
  \<^verbatim>\<open>self.indentation_char * (self.indentation_level * self.indent)\<close>, with
  \<^verbatim>\<open>indentation_char = " "\<close>. The product with \<^verbatim>\<open>None\<close> raises \<^verbatim>\<open>TypeError\<close>.
\<close>

definition indent_str :: "qmk_encoder \<Rightarrow> pyerror + string" where
  "indent_str self =
     (case indent self of
        None \<Rightarrow> Inl TypeError
      | Some w \<Rightarrow> Inr (str_mul '' '' (indentation_level self * w)))"

definition encode_decimal :: "decimal \<Rightarrow> pyerror + pyval" where
  "encode_decimal obj =
     bind (decimal_int obj)
       (\<lambda>i. if decimal_eq_int obj i then Inr (PyInt i) else Inr (PyFloat (as_float obj)))"

definition is_container :: "pyval \<Rightarrow> bool" where
  "is_container element = (case element of PyList xs \<Rightarrow> True | PyDict kvs \<Rightarrow> True | _ \<Rightarrow> False)"

text \<open>\<^verbatim>\<open>primitives_only\<close>, on the elements of a list or the values of a dict.\<close>

definition primitives_only :: "pyval list \<Rightarrow> bool" where
  "primitives_only obj = (\<not> list_ex is_container obj)"

text \<open>\<^verbatim>\<open>InfoJSONEncoder.sort_dict\<close>; \<open>item\<close> is a (key, value) pair of the dict.\<close>

definition Info_sort_dict :: "qmk_encoder \<Rightarrow> string \<times> pyval \<Rightarrow> string" where
  "Info_sort_dict self item =
     (let key = fst item in
      if indentation_level self = 1 then
        (if key = ''manufacturer'' then ''10keyboard_name''
         else if key = ''keyboard_name'' then ''11keyboard_name''
         else if key = ''maintainer'' then ''12maintainer''
         else if key = ''processor'' then ''13processor''
         else if key = ''bootloader'' then ''14bootloader''
         else if key = ''usb'' then ''15usb''
         else if key = ''features'' then ''16bootloader''
         else if key = ''community_layouts'' then ''97community_layouts''
         else if key = ''layout_aliases'' then ''98layout_aliases''
         else if key = ''layouts'' then ''99layouts''
         else ''50'' @ key)
      else if indentation_level self = 2 \<and> key = ''vid'' then ''10vid''
      else if indentation_level self = 2 \<and> key = ''pid'' then ''11pid''
      else if indentation_level self = 2 \<and> key = ''device_ver'' then ''12device_ver''
      else key)"

text \<open>\<^verbatim>\<open>KeymapJSONEncoder.sort_dict\<close>.\<close>

definition Keymap_sort_dict :: "qmk_encoder \<Rightarrow> string \<times> pyval \<Rightarrow> string" where
  "Keymap_sort_dict self item =
     (let key = fst item in
      if indentation_level self = 1 then
        (if key = ''version'' then ''00version''
         else if key = ''author'' then ''01author''
         else if key = ''notes'' then ''02notes''
         else if key = ''layers'' then ''98layers''
         else if key = ''documentation'' then ''99documentation''
         else ''50'' @ key)
      else key)"

text \<open>
  \<^verbatim>\<open>encode\<close>, \<^verbatim>\<open>encode_list\<close> and \<^verbatim>\<open>encode_dict\<close> of the three classes. A call
  returns the object the method returns and the encoder as the call leaves it; an
  exception leaves no result.

  \<^item> \<^verbatim>\<open>KeymapJSONEncoder.encode_list\<close> starts with the branch for a list of keycodes
    at indentation level 2; its other two branches are the text of
    \<^verbatim>\<open>QMKJSONEncoder.encode_list\<close>, which \<^verbatim>\<open>InfoJSONEncoder\<close> inherits.
  \<^item> \<^verbatim>\<open>QMKJSONEncoder\<close> has no \<^verbatim>\<open>encode_dict\<close>: the call raises
    \<^verbatim>\<open>AttributeError\<close>.
  \<^item> \<^verbatim>\<open>sorted(obj.items())\<close> orders the items by key, the keys of a dict being
    distinct; \<^verbatim>\<open>sorted\<close> is stable, as \<open>sort_key\<close> is.
\<close>

function encode :: "printer \<Rightarrow> qmk_encoder \<Rightarrow> pyval \<Rightarrow> pyerror + (pyval \<times> qmk_encoder)"
  and encode_list :: "printer \<Rightarrow> qmk_encoder \<Rightarrow> pyval list \<Rightarrow> pyerror + (pyval \<times> qmk_encoder)"
  and encode_dict ::
    "printer \<Rightarrow> qmk_encoder \<Rightarrow> (string \<times> pyval) list \<Rightarrow> pyerror + (pyval \<times> qmk_encoder)"
where
  "encode P self obj =
     (case obj of
        PyDecimal d \<Rightarrow> bind (encode_decimal d) (\<lambda>r. Inr (r, self))
      | PyList xs \<Rightarrow> encode_list P self xs
      | PyDict kvs \<Rightarrow> encode_dict P self kvs
      | _ \<Rightarrow> bind (JSONEncoder_encode JSONEncoder_iterencode self obj) (\<lambda>s. Inr (PyStr s, self)))"
| "encode_list P self obj =
     (if P = KeymapJSONEncoder \<and> indentation_level self = 2 then
        (let indent_level = indentation_level self + 1 in
         bind (for_loop
                 (\<lambda>vars key.
                    case vars of (layer, s) \<Rightarrow>
                    if key = PyStr ''JSON_NEWLINE'' then Inr (layer @ [[]], s)
                    else
                      (case key of
                         PyDict d \<Rightarrow>
                           bind (encode P s key) (\<lambda>(r, s').
                           bind (append_last layer (py_str r)) (\<lambda>layer'. Inr (layer', s')))
                       | _ \<Rightarrow>
                           bind (append_last layer ([dquote] @ py_str key @ [dquote]))
                             (\<lambda>layer'. Inr (layer', s))))
                 ([[]], self) obj)
           (\<lambda>(layer, s).
              bind (map_results
                      (\<lambda>row. bind (indent_str s)
                         (\<lambda>i. Inr (str_mul i indent_level @ join '', '' row))) layer)
                (\<lambda>rows. bind (indent_str s)
                   (\<lambda>i. Inr (PyStr (i @ ''['' @ newline @ join newline rows @ newline
                                      @ str_mul i (indentation_level s) @ '']''), s)))))
      else if primitives_only obj then
        bind (for_each (encode P) self obj) (\<lambda>(parts, s).
        bind (str_join '', '' parts) (\<lambda>inner. Inr (PyStr (''['' @ inner @ '']''), s)))
      else
        bind (for_each
                (\<lambda>s element.
                   bind (indent_str s) (\<lambda>i.
                   bind (encode P s element) (\<lambda>(r, s').
                   bind (str_add i r) (\<lambda>line. Inr (line, s')))))
                (self\<lparr>indentation_level := indentation_level self + 1\<rparr>) obj)
          (\<lambda>(output, s).
             (let s' = s\<lparr>indentation_level := indentation_level s - 1\<rparr> in
              bind (indent_str s')
                (\<lambda>i. Inr (PyStr (''['' @ newline @ join ('','' @ newline) output @ newline
                                   @ i @ '']''), s')))))"
| "encode_dict P self obj =
     (case P of
        QMKJSONEncoder \<Rightarrow> Inl AttributeError
      | InfoJSONEncoder \<Rightarrow>
          (if obj \<noteq> [] then
             (if indentation_level self = 4 then
                bind (for_each
                        (\<lambda>s (key, element).
                           bind (encode P s (PyStr key)) (\<lambda>(k, s').
                           bind (encode P s' element) (\<lambda>(e, s'').
                           Inr (py_str k @ '': '' @ py_str e, s''))))
                        self (sort_key fst obj))
                  (\<lambda>(parts, s). Inr (PyStr (''{ '' @ join '', '' parts @ '' }''), s))
              else
                (let self' = self\<lparr>indentation_level := indentation_level self + 1\<rparr> in
                 bind (for_each
                         (\<lambda>s (key, v).
                            bind (indent_str s) (\<lambda>i.
                            bind (json_dumps (PyStr key)) (\<lambda>k.
                            bind (encode P s v) (\<lambda>(e, s').
                            Inr (i @ k @ '': '' @ py_str e, s')))))
                         self' (sort_key (Info_sort_dict self') obj))
                   (\<lambda>(output, s).
                      (let s' = s\<lparr>indentation_level := indentation_level s - 1\<rparr> in
                       bind (indent_str s')
                         (\<lambda>i. Inr (PyStr (''{'' @ newline @ join ('','' @ newline) output
                                            @ newline @ i @ ''}''), s'))))))
           else Inr (PyStr ''{}'', self))
      | KeymapJSONEncoder \<Rightarrow>
          (if obj \<noteq> [] then
             (let self' = self\<lparr>indentation_level := indentation_level self + 1\<rparr> in
              bind (for_each
                      (\<lambda>s (key, v).
                         bind (indent_str s) (\<lambda>i.
                         bind (json_dumps (PyStr key)) (\<lambda>k.
                         bind (encode P s v) (\<lambda>(e, s').
                         Inr (i @ k @ '': '' @ py_str e, s')))))
                      self' (sort_key (Keymap_sort_dict self') obj))
                (\<lambda>(output_lines, s).
                   (let output = join ('','' @ newline) output_lines;
                        s' = s\<lparr>indentation_level := indentation_level s - 1\<rparr> in
                    bind (indent_str s')
                      (\<lambda>i. Inr (PyStr (''{'' @ newline @ output @ newline @ i @ ''}''), s')))))
           else Inr (PyStr ''{}'', self)))"
  by pat_completeness auto
termination
  by (relation "measure (\<lambda>c. case c of
          Inl (P, self, obj) \<Rightarrow> 2 * size obj + 1
        | Inr (Inl (P, self, xs)) \<Rightarrow> 2 * size_list size xs + 2
        | Inr (Inr (P, self, kvs)) \<Rightarrow> 2 * size_list (size_prod (\<lambda>x. 0) size) kvs + 2)")
     (auto dest: size_item_less size_element_less)

declare encode.simps [simp del] encode_list.simps [simp del] encode_dict.simps [simp del]

section \<open>The KLE encoder\<close>

text \<open>
  \<^verbatim>\<open>floatstr\<close> of \<^verbatim>\<open>KLEJSONEncoder.iterencode\<close>: the stock one with the branch
  \<^verbatim>\<open>elif o == int(o): return int(o).__repr__()\<close> before \<^verbatim>\<open>_repr(o)\<close>. The three
  non-finite tokens are refused when \<^verbatim>\<open>allow_nan\<close> is off.
\<close>

definition floatstr :: "bool \<Rightarrow> pyfloat \<Rightarrow> pyerror + string" where
  "floatstr allow x =
     (case float_value x of
        NaN \<Rightarrow> if \<not> allow then Inl ValueError else Inr ''NaN''
      | Infinity \<Rightarrow> if \<not> allow then Inl ValueError else Inr ''Infinity''
      | NegInfinity \<Rightarrow> if \<not> allow then Inl ValueError else Inr ''-Infinity''
      | Finite r \<Rightarrow> if r = of_int (trunc r) then Inr (int_repr (trunc r)) else Inr (float_repr x))"

text \<open>
  \<^verbatim>\<open>KLEJSONEncoder.iterencode\<close>: in one shot, with the C accelerator and no indent,
  the encoder is \<^verbatim>\<open>c_make_encoder\<close>, which is not given \<open>floatstr\<close>; otherwise
  it is \<^verbatim>\<open>_make_iterencode\<close> with \<open>floatstr\<close>.
\<close>

definition KLE_iterencode :: "'a json_encoder_scheme \<Rightarrow> pyval \<Rightarrow> bool \<Rightarrow> pyerror + string" where
  "KLE_iterencode E x one_shot =
     (if one_shot \<and> has_c_make_encoder E \<and> indent E = None then c_make_encoder E x
      else make_iterencode (floatstr (allow_nan E)) E 0 x)"

text \<open>\<^verbatim>\<open>KLEJSONEncoder().encode(o)\<close>: the inherited \<^verbatim>\<open>encode\<close> on the overridden
  \<^verbatim>\<open>iterencode\<close>.\<close>

definition KLE_encode :: "'a json_encoder_scheme \<Rightarrow> pyval \<Rightarrow> pyerror + string" where
  "KLE_encode E x = JSONEncoder_encode KLE_iterencode E x"

section \<open>Reference inputs and layouts\<close>

text \<open>
  The encoder \<^verbatim>\<open>json.dumps(obj, cls=...)\<close> builds with no other option, in CPython:
  as a \<^verbatim>\<open>QMKJSONEncoder\<close> and as a \<^verbatim>\<open>KLEJSONEncoder\<close>.
\<close>

definition default_encoder :: qmk_encoder where
  "default_encoder = QMKJSONEncoder_init True True False None None True"

definition compact_encoder :: json_encoder where
  "compact_encoder = JSONEncoder_init True True False None None True"

text \<open>Shorthands for writing expected texts: a word in double quotes, a run of spaces.\<close>

definition quoted :: "string \<Rightarrow> string" where
  "quoted s = [dquote] @ s @ [dquote]"

definition spaces :: "nat \<Rightarrow> string" where
  "spaces n = replicate n CHR '' ''"

text \<open>The floats \<^verbatim>\<open>2.0\<close> and \<^verbatim>\<open>2.5\<close>, and the Decimals \<^verbatim>\<open>Decimal('2')\<close> and
  \<^verbatim>\<open>Decimal('2.5')\<close>.\<close>

definition float_2_0 :: pyfloat where
  "float_2_0 = Float (Finite 2) ''2.0''"

definition float_2_5 :: pyfloat where
  "float_2_5 = Float (Finite (5 / 2)) ''2.5''"

definition decimal_2 :: decimal where
  "decimal_2 = Decimal False 2 0 float_2_0"

definition decimal_2_5 :: decimal where
  "decimal_2_5 = Decimal False 25 (- 1) float_2_5"

text \<open>
  The two layouts of a mapping and of a sequence, as texts: \<open>entries\<close> are the
  (key text, value text) pairs of a mapping in the order written, \<open>parts\<close> the element
  texts of a sequence; \<open>i0\<close> is the indent of the container, \<open>i1\<close> that of its
  children. \<open>deeper\<close> is the encoder one indentation level down.
\<close>

definition inline_mapping :: "(string \<times> string) list \<Rightarrow> string" where
  "inline_mapping entries =
     ''{ '' @ join '', '' (map (\<lambda>(k, e). k @ '': '' @ e) entries) @ '' }''"

definition expanded_mapping :: "string \<Rightarrow> string \<Rightarrow> (string \<times> string) list \<Rightarrow> string" where
  "expanded_mapping i0 i1 entries =
     ''{'' @ newline @ join ('','' @ newline) (map (\<lambda>(k, e). i1 @ k @ '': '' @ e) entries)
     @ newline @ i0 @ ''}''"

definition inline_sequence :: "string list \<Rightarrow> string" where
  "inline_sequence parts = ''['' @ join '', '' parts @ '']''"

definition expanded_sequence :: "string \<Rightarrow> string \<Rightarrow> string list \<Rightarrow> string" where
  "expanded_sequence i0 i1 parts =
     ''['' @ newline @ join ('','' @ newline) (map (\<lambda>e. i1 @ e) parts) @ newline @ i0 @ '']''"

definition deeper :: "qmk_encoder \<Rightarrow> qmk_encoder" where
  "deeper self = self\<lparr>indentation_level := indentation_level self + 1\<rparr>"

section \<open>Exceptions, loops and the encoder's state\<close>

lemma bind_eq_Inr: "bind m f = Inr y \<longleftrightarrow> (\<exists>x. m = Inr x \<and> f x = Inr y)"
  by (cases m) auto

lemma for_each_state:
  assumes "\<And>u x y u'. x \<in> set xs \<Longrightarrow> f u x = Inr (y, u') \<Longrightarrow> u' = u"
    and "for_each f s xs = Inr (ys, s')"
  shows "s' = s"
  using assms
proof (induction xs arbitrary: s ys)
  case Nil
  then show ?case by simp
next
  case (Cons x xs)
  from Cons.prems(2) obtain y u zs where
    a: "f s x = Inr (y, u)" and b: "for_each f u xs = Inr (zs, s')"
    by (auto simp: bind_eq_Inr)
  have "u = s" using Cons.prems(1) [of x s y u] a by simp
  moreover have "s' = u" using Cons.IH [of u zs] Cons.prems(1) b by auto
  ultimately show ?case by simp
qed

lemma for_loop_invariant:
  assumes "\<And>u x u'. x \<in> set xs \<Longrightarrow> f u x = Inr u' \<Longrightarrow> I u \<Longrightarrow> I u'"
    and "I s" and "for_loop f s xs = Inr s'"
  shows "I s'"
  using assms
proof (induction xs arbitrary: s)
  case Nil
  then show ?case by simp
next
  case (Cons x xs)
  from Cons.prems(3) obtain u where a: "f s x = Inr u" and b: "for_loop f u xs = Inr s'"
    by (auto simp: bind_eq_Inr)
  have "I u" using Cons.prems(1) [of x s u] a Cons.prems(2) by simp
  then show ?case using Cons.IH [of u] Cons.prems(1) b by auto
qed

text \<open>A call that returns leaves the encoder as it found it.\<close>

lemma encode_state:
  "encode P self obj = Inr (r, self') \<Longrightarrow> self' = self"
proof (induction obj arbitrary: self r self')
  case (PyList xs)
  have elem: "\<And>x u y u'. x \<in> set xs \<Longrightarrow> encode P u x = Inr (y, u') \<Longrightarrow> u' = u"
    using PyList.IH by blast
  from PyList.prems have el: "encode_list P self xs = Inr (r, self')"
    by (simp add: encode.simps)
  show ?case
  proof (cases "P = KeymapJSONEncoder \<and> indentation_level self = 2")
    case True
    from el True obtain layer s where
      loop: "for_loop (\<lambda>vars key. case vars of (layer, s) \<Rightarrow>
                    if key = PyStr ''JSON_NEWLINE'' then Inr (layer @ [[]], s)
                    else
                      (case key of
                         PyDict d \<Rightarrow>
                           bind (encode P s key) (\<lambda>(r, s').
                           bind (append_last layer (py_str r)) (\<lambda>layer'. Inr (layer', s')))
                       | _ \<Rightarrow>
                           bind (append_last layer ([dquote] @ py_str key @ [dquote]))
                             (\<lambda>layer'. Inr (layer', s))))
                 ([[]], self) xs = Inr (layer, s)"
      and fin: "self' = s"
      by (auto simp: encode_list.simps bind_eq_Inr)
    have "snd (layer, s) = self"
      by (rule for_loop_invariant [where I = "\<lambda>v. snd v = self", OF _ _ loop])
         (auto simp: bind_eq_Inr split: if_splits pyval.splits dest: elem)
    then show ?thesis using fin by simp
  next
    case False
    show ?thesis
    proof (cases "primitives_only xs")
      case True
      from el False True obtain parts where
        "for_each (encode P) self xs = Inr (parts, self')"
        by (auto simp: encode_list.simps bind_eq_Inr)
      then show ?thesis using for_each_state [of xs "encode P"] elem by blast
    next
      case np: False
      let ?s1 = "self\<lparr>indentation_level := indentation_level self + 1\<rparr>"
      from el False np obtain outp s where
        fe: "for_each (\<lambda>s element.
                   bind (indent_str s) (\<lambda>i.
                   bind (encode P s element) (\<lambda>(r, s').
                   bind (str_add i r) (\<lambda>line. Inr (line, s'))))) ?s1 xs = Inr (outp, s)"
        and fin: "self' = s\<lparr>indentation_level := indentation_level s - 1\<rparr>"
        by (auto simp: encode_list.simps bind_eq_Inr Let_def)
      have "s = ?s1"
        by (rule for_each_state [OF _ fe]) (auto simp: bind_eq_Inr dest: elem)
      then show ?thesis using fin by simp
    qed
  qed
next
  case (PyDict kvs)
  have elem: "\<And>k v u y u'. (k, v) \<in> set kvs \<Longrightarrow> encode P u v = Inr (y, u') \<Longrightarrow> u' = u"
    using PyDict.IH by fastforce
  have key: "\<And>k u y u'. encode P u (PyStr k) = Inr (y, u') \<Longrightarrow> u' = u"
    by (auto simp: encode.simps bind_eq_Inr)
  from PyDict.prems have ed: "encode_dict P self kvs = Inr (r, self')"
    by (simp add: encode.simps)
  let ?s1 = "self\<lparr>indentation_level := indentation_level self + 1\<rparr>"
  show ?case
  proof (cases P)
    case QMKJSONEncoder
    then show ?thesis using ed by (simp add: encode_dict.simps)
  next
    case InfoJSONEncoder
    show ?thesis
    proof (cases "kvs = []")
      case True
      then show ?thesis using ed InfoJSONEncoder by (simp add: encode_dict.simps)
    next
      case ne: False
      show ?thesis
      proof (cases "indentation_level self = 4")
        case True
        from ed InfoJSONEncoder ne True obtain parts where
          fe: "for_each (\<lambda>s (key, element).
                           bind (encode P s (PyStr key)) (\<lambda>(k, s').
                           bind (encode P s' element) (\<lambda>(e, s'').
                           Inr (py_str k @ '': '' @ py_str e, s''))))
                        self (sort_key fst kvs) = Inr (parts, self')"
          by (auto simp: encode_dict.simps bind_eq_Inr)
        show ?thesis
          by (rule for_each_state [OF _ fe]) (use elem key in \<open>fastforce simp: bind_eq_Inr\<close>)
      next
        case False
        from ed InfoJSONEncoder ne False obtain outp s where
          fe: "for_each (\<lambda>s (key, v).
                            bind (indent_str s) (\<lambda>i.
                            bind (json_dumps (PyStr key)) (\<lambda>k.
                            bind (encode P s v) (\<lambda>(e, s').
                            Inr (i @ k @ '': '' @ py_str e, s')))))
                         ?s1 (sort_key (Info_sort_dict ?s1) kvs) = Inr (outp, s)"
          and fin: "self' = s\<lparr>indentation_level := indentation_level s - 1\<rparr>"
          by (auto simp: encode_dict.simps bind_eq_Inr Let_def)
        have "s = ?s1"
          by (rule for_each_state [OF _ fe]) (auto simp: bind_eq_Inr dest: elem)
        then show ?thesis using fin by simp
      qed
    qed
  next
    case KeymapJSONEncoder
    show ?thesis
    proof (cases "kvs = []")
      case True
      then show ?thesis using ed KeymapJSONEncoder by (simp add: encode_dict.simps)
    next
      case ne: False
      from ed KeymapJSONEncoder ne obtain outp s where
        fe: "for_each (\<lambda>s (key, v).
                          bind (indent_str s) (\<lambda>i.
                          bind (json_dumps (PyStr key)) (\<lambda>k.
                          bind (encode P s v) (\<lambda>(e, s').
                          Inr (i @ k @ '': '' @ py_str e, s')))))
                       ?s1 (sort_key (Keymap_sort_dict ?s1) kvs) = Inr (outp, s)"
        and fin: "self' = s\<lparr>indentation_level := indentation_level s - 1\<rparr>"
        by (auto simp: encode_dict.simps bind_eq_Inr Let_def)
      have "s = ?s1"
        by (rule for_each_state [OF _ fe]) (auto simp: bind_eq_Inr dest: elem)
      then show ?thesis using fin by simp
    qed
  qed
qed (auto simp: encode.simps bind_eq_Inr)

section \<open>The layout of a container\<close>

lemma for_each_results:
  assumes "for_each f s xs = Inr (ys, s')"
    and "\<And>x y u. x \<in> set xs \<Longrightarrow> f s x = Inr (y, u) \<Longrightarrow> u = s"
  shows "s' = s \<and> list_all2 (\<lambda>x y. f s x = Inr (y, s)) xs ys"
  using assms
proof (induction xs arbitrary: ys)
  case Nil
  then show ?case by simp
next
  case (Cons x xs)
  from Cons.prems(1) obtain y u zs where
    a: "f s x = Inr (y, u)" and b: "for_each f u xs = Inr (zs, s')" and c: "ys = y # zs"
    by (auto simp: bind_eq_Inr)
  have u: "u = s" using Cons.prems(2) [of x y u] a by simp
  have "s' = s \<and> list_all2 (\<lambda>x y. f s x = Inr (y, s)) xs zs"
    using Cons.IH [of zs] b u Cons.prems(2) by auto
  then show ?case using a u c by simp
qed

lemma list_all2_map_fields:
  "list_all2 (\<lambda>x y. \<exists>e. R x e \<and> y = g x e) xs ys
   \<Longrightarrow> \<exists>es. list_all2 R xs es \<and> ys = map2 g xs es"
proof (induction xs ys rule: list_all2_induct)
  case Nil
  then show ?case by simp
next
  case (Cons x xs y ys)
  from Cons.hyps(1) obtain e where e: "R x e" "y = g x e"
    by (elim exE conjE)
  from Cons.IH obtain es where es: "list_all2 R xs es" "ys = map2 g xs es"
    by (elim exE conjE)
  note e es
  then have "list_all2 R (x # xs) (e # es) \<and> y # ys = map2 g (x # xs) (e # es)"
    by simp
  then show ?case by (rule exI [of _ "e # es"])
qed

lemma encode_key: "encode P s (PyStr k) = Inr (PyStr (str_encoder s k), s)"
  by (simp add: encode.simps JSONEncoder_encode_def)

lemma json_dumps_key: "json_dumps (PyStr k) = Inr (encode_basestring_ascii k)"
  by (simp add: json_dumps_def JSONEncoder_encode_def str_encoder_def JSONEncoder_init_def)



lemma mapping_inline:
  assumes "obj \<noteq> []" "indentation_level self = 4"
    and "encode InfoJSONEncoder self (PyDict obj) = Inr (r, self')"
  shows "\<exists>es. list_all2 (\<lambda>(k, v) e. \<exists>rv. encode InfoJSONEncoder self v = Inr (rv, self) \<and> e = py_str rv)
                 (sort_key fst obj) es
          \<and> r = PyStr (inline_mapping (zip (map (\<lambda>(k, v). str_encoder self k) (sort_key fst obj)) es))"
proof -
  let ?f = "\<lambda>s (key, element).
               bind (encode InfoJSONEncoder s (PyStr key)) (\<lambda>(k, s').
               bind (encode InfoJSONEncoder s' element) (\<lambda>(e, s'').
               Inr (py_str k @ '': '' @ py_str e, s'')))"
  let ?R = "\<lambda>(k, v) e. \<exists>rv. encode InfoJSONEncoder self v = Inr (rv, self) \<and> e = py_str rv"
  let ?g = "\<lambda>(k, v) e. str_encoder self k @ '': '' @ e"
  from assms(3) have ed: "encode_dict InfoJSONEncoder self obj = Inr (r, self')"
    by (simp add: encode.simps)
  from ed assms(1,2) obtain parts where
    fe: "for_each ?f self (sort_key fst obj) = Inr (parts, self')"
    and r: "r = PyStr (''{ '' @ join '', '' parts @ '' }'')"
    by (auto simp: encode_dict.simps bind_eq_Inr)
  have st: "u = self" if "?f self x = Inr (y, u)" for x y u
    using that by (cases x) (auto simp: bind_eq_Inr encode_key dest: encode_state)
  have all: "list_all2 (\<lambda>x y. ?f self x = Inr (y, self)) (sort_key fst obj) parts"
    by (rule for_each_results [OF fe, THEN conjunct2]) (rule st)
  have "list_all2 (\<lambda>x y. \<exists>e. ?R x e \<and> y = ?g x e) (sort_key fst obj) parts"
  proof (rule list_all2_mono [OF all])
    fix x y assume a: "?f self x = Inr (y, self)"
    obtain k v where x: "x = (k, v)" by (cases x)
    from a x obtain rv where "encode InfoJSONEncoder self v = Inr (rv, self)"
      and "y = str_encoder self k @ '': '' @ py_str rv"
      by (auto simp: bind_eq_Inr encode_key py_str_def)
    then show "\<exists>e. ?R x e \<and> y = ?g x e"
      unfolding x by (intro exI [of _ "py_str rv"]) simp
  qed
  from list_all2_map_fields [OF this] obtain es where
    es: "list_all2 ?R (sort_key fst obj) es"
    and parts: "parts = map2 ?g (sort_key fst obj) es"
    by (elim exE conjE)
  have "parts = map (\<lambda>(k, e). k @ '': '' @ e)
                  (zip (map (\<lambda>(k, v). str_encoder self k) (sort_key fst obj)) es)"
    unfolding parts by (simp add: zip_map1 split_def)
  then have "r = PyStr (inline_mapping (zip (map (\<lambda>(k, v). str_encoder self k) (sort_key fst obj)) es))"
    using r by (simp add: inline_mapping_def)
  with es show ?thesis by (intro exI [of _ es] conjI)
qed


lemma expanded_lines:
  assumes fe: "for_each
                 (\<lambda>s (key, v).
                    bind (indent_str s) (\<lambda>i.
                    bind (json_dumps (PyStr key)) (\<lambda>k.
                    bind (encode P s v) (\<lambda>(e, s').
                    Inr (i @ k @ '': '' @ py_str e, s')))))
                 s1 items = Inr (outp, s)"
    and ne: "items \<noteq> []"
  shows "s = s1 \<and> (\<exists>i1 es. indent_str s1 = Inr i1
           \<and> list_all2 (\<lambda>(k, v) e. \<exists>rv. encode P s1 v = Inr (rv, s1) \<and> e = py_str rv) items es
           \<and> outp = map (\<lambda>(k, e). i1 @ k @ '': '' @ e)
                        (zip (map (\<lambda>(k, v). encode_basestring_ascii k) items) es))"
proof -
  let ?f = "\<lambda>s (key, v).
                    bind (indent_str s) (\<lambda>i.
                    bind (json_dumps (PyStr key)) (\<lambda>k.
                    bind (encode P s v) (\<lambda>(e, s').
                    Inr (i @ k @ '': '' @ py_str e, s'))))"
  let ?R = "\<lambda>(k, v) e. \<exists>rv. encode P s1 v = Inr (rv, s1) \<and> e = py_str rv"
  have st: "u = s1" if "?f s1 x = Inr (y, u)" for x y u
    using that by (cases x) (auto simp: bind_eq_Inr dest: encode_state)
  have s: "s = s1"
    by (rule for_each_results [OF fe, THEN conjunct1]) (rule st)
  have all: "list_all2 (\<lambda>x y. ?f s1 x = Inr (y, s1)) items outp"
    by (rule for_each_results [OF fe, THEN conjunct2]) (rule st)
  from ne obtain x0 xs0 where items: "items = x0 # xs0"
    by (cases items) auto
  from all items obtain y0 where "?f s1 x0 = Inr (y0, s1)"
    by (auto simp: list_all2_Cons1)
  then obtain i1 where i1: "indent_str s1 = Inr i1"
    by (cases x0) (auto simp: bind_eq_Inr)
  let ?g = "\<lambda>(k, v) e. i1 @ encode_basestring_ascii k @ '': '' @ e"
  have "list_all2 (\<lambda>x y. \<exists>e. ?R x e \<and> y = ?g x e) items outp"
  proof (rule list_all2_mono [OF all])
    fix x y assume a: "?f s1 x = Inr (y, s1)"
    obtain k v where x: "x = (k, v)" by (cases x)
    from a x i1 obtain rv where "encode P s1 v = Inr (rv, s1)"
      and "y = i1 @ encode_basestring_ascii k @ '': '' @ py_str rv"
      by (auto simp: bind_eq_Inr json_dumps_key)
    then show "\<exists>e. ?R x e \<and> y = ?g x e"
      unfolding x by (intro exI [of _ "py_str rv"]) simp
  qed
  from list_all2_map_fields [OF this] obtain es where
    es: "list_all2 ?R items es" and outp: "outp = map2 ?g items es"
    by (elim exE conjE)
  have "outp = map (\<lambda>(k, e). i1 @ k @ '': '' @ e)
                  (zip (map (\<lambda>(k, v). encode_basestring_ascii k) items) es)"
    unfolding outp by (simp add: zip_map1 split_def)
  with s i1 es show ?thesis
    by (intro conjI exI [of _ i1] exI [of _ es])
qed

lemma deeper_back: "(deeper self)\<lparr>indentation_level := indentation_level (deeper self) - 1\<rparr> = self"
  by (simp add: deeper_def)

lemma mapping_expanded:
  assumes "obj \<noteq> []"
    and "P = KeymapJSONEncoder \<or> (P = InfoJSONEncoder \<and> indentation_level self \<noteq> 4)"
    and "encode P self (PyDict obj) = Inr (r, self')"
  shows "\<exists>i0 i1 es. indent_str self = Inr i0 \<and> indent_str (deeper self) = Inr i1
          \<and> list_all2 (\<lambda>(k, v) e. \<exists>rv. encode P (deeper self) v = Inr (rv, deeper self) \<and> e = py_str rv)
               (sort_key (if P = InfoJSONEncoder then Info_sort_dict (deeper self)
                          else Keymap_sort_dict (deeper self)) obj) es
          \<and> r = PyStr (expanded_mapping i0 i1
                 (zip (map (\<lambda>(k, v). encode_basestring_ascii k)
                        (sort_key (if P = InfoJSONEncoder then Info_sort_dict (deeper self)
                                   else Keymap_sort_dict (deeper self)) obj)) es))"
proof -
  let ?items = "sort_key (if P = InfoJSONEncoder then Info_sort_dict (deeper self)
                          else Keymap_sort_dict (deeper self)) obj"
  let ?f = "\<lambda>s (key, v).
                    bind (indent_str s) (\<lambda>i.
                    bind (json_dumps (PyStr key)) (\<lambda>k.
                    bind (encode P s v) (\<lambda>(e, s').
                    Inr (i @ k @ '': '' @ py_str e, s'))))"
  from assms(3) have ed: "encode_dict P self obj = Inr (r, self')"
    by (simp add: encode.simps)
  have "\<exists>outp s i0. for_each ?f (deeper self) ?items = Inr (outp, s)
          \<and> indent_str (s\<lparr>indentation_level := indentation_level s - 1\<rparr>) = Inr i0
          \<and> r = PyStr (''{'' @ newline @ join ('','' @ newline) outp @ newline @ i0 @ ''}'')"
    using assms(2)
  proof
    assume "P = KeymapJSONEncoder"
    with ed assms(1) show ?thesis
      by (auto simp: encode_dict.simps bind_eq_Inr Let_def deeper_def)
  next
    assume "P = InfoJSONEncoder \<and> indentation_level self \<noteq> 4"
    with ed assms(1) show ?thesis
      by (auto simp: encode_dict.simps bind_eq_Inr Let_def deeper_def)
  qed
  then obtain outp s i0 where
    fe: "for_each ?f (deeper self) ?items = Inr (outp, s)"
    and i0': "indent_str (s\<lparr>indentation_level := indentation_level s - 1\<rparr>) = Inr i0"
    and r: "r = PyStr (''{'' @ newline @ join ('','' @ newline) outp @ newline @ i0 @ ''}'')"
    by (elim exE conjE)
  have ne: "?items \<noteq> []"
    using assms(1) by (metis length_sort list.size(3) length_0_conv)
  from expanded_lines [OF fe ne] obtain i1 es where
    s: "s = deeper self" and i1: "indent_str (deeper self) = Inr i1"
    and es: "list_all2 (\<lambda>(k, v) e. \<exists>rv. encode P (deeper self) v = Inr (rv, deeper self) \<and> e = py_str rv)
               ?items es"
    and outp: "outp = map (\<lambda>(k, e). i1 @ k @ '': '' @ e)
                        (zip (map (\<lambda>(k, v). encode_basestring_ascii k) ?items) es)"
    by (elim exE conjE)
  have i0: "indent_str self = Inr i0"
    using i0' unfolding s deeper_back .
  have "r = PyStr (expanded_mapping i0 i1
                 (zip (map (\<lambda>(k, v). encode_basestring_ascii k) ?items) es))"
    using r outp by (simp add: expanded_mapping_def)
  with i0 i1 es show ?thesis
    by (intro exI [of _ i0] exI [of _ i1] exI [of _ es] conjI)
qed


lemma str_join_Inr:
  "str_join sep xs = Inr t \<Longrightarrow> \<exists>ps. xs = map PyStr ps \<and> t = join sep ps"
proof -
  have m: "map_results (\<lambda>x. case x of PyStr t \<Rightarrow> Inr t | _ \<Rightarrow> Inl TypeError) xs = Inr ps
           \<Longrightarrow> xs = map PyStr ps" for ps
  proof (induction xs arbitrary: ps)
    case Nil
    then show ?case by simp
  next
    case (Cons x xs)
    then show ?case
      by (cases x) (auto simp: bind_eq_Inr)
  qed
  assume "str_join sep xs = Inr t"
  then obtain ps where
    "map_results (\<lambda>x. case x of PyStr t \<Rightarrow> Inr t | _ \<Rightarrow> Inl TypeError) xs = Inr ps"
    and t: "t = join sep ps"
    by (auto simp: str_join_def bind_eq_Inr)
  from m [OF this(1)] t show ?thesis
    by (intro exI [of _ ps] conjI)
qed

lemma sequence_inline:
  assumes "\<not> (P = KeymapJSONEncoder \<and> indentation_level self = 2)" "primitives_only xs"
    and "encode P self (PyList xs) = Inr (r, self')"
  shows "\<exists>es. list_all2 (\<lambda>x e. encode P self x = Inr (PyStr e, self)) xs es
          \<and> r = PyStr (inline_sequence es)"
proof -
  from assms(3) have el: "encode_list P self xs = Inr (r, self')"
    by (simp add: encode.simps)
  from el assms(1,2) obtain parts s inner where
    fe: "for_each (encode P) self xs = Inr (parts, s)"
    and j: "str_join '', '' parts = Inr inner"
    and r: "r = PyStr (''['' @ inner @ '']'')"
    by (auto simp: encode_list.simps bind_eq_Inr)
  have st: "u = self" if "encode P self x = Inr (y, u)" for x y u
    using that by (rule encode_state)
  have all: "list_all2 (\<lambda>x y. encode P self x = Inr (y, self)) xs parts"
    by (rule for_each_results [OF fe, THEN conjunct2]) (rule st)
  from str_join_Inr [OF j] obtain es where
    parts: "parts = map PyStr es" and inner: "inner = join '', '' es"
    by (elim exE conjE)
  have "list_all2 (\<lambda>x e. encode P self x = Inr (PyStr e, self)) xs es"
    using all unfolding parts by (simp add: list_all2_map2)
  moreover have "r = PyStr (inline_sequence es)"
    using r inner by (simp add: inline_sequence_def)
  ultimately show ?thesis
    by (intro exI [of _ es] conjI)
qed

lemma sequence_expanded:
  assumes "\<not> (P = KeymapJSONEncoder \<and> indentation_level self = 2)" "\<not> primitives_only xs"
    and "encode P self (PyList xs) = Inr (r, self')"
  shows "\<exists>i0 i1 es. indent_str self = Inr i0 \<and> indent_str (deeper self) = Inr i1
          \<and> list_all2 (\<lambda>x e. encode P (deeper self) x = Inr (PyStr e, deeper self)) xs es
          \<and> r = PyStr (expanded_sequence i0 i1 es)"
proof -
  let ?f = "\<lambda>s element.
                   bind (indent_str s) (\<lambda>i.
                   bind (encode P s element) (\<lambda>(r, s').
                   bind (str_add i r) (\<lambda>line. Inr (line, s'))))"
  from assms(3) have el: "encode_list P self xs = Inr (r, self')"
    by (simp add: encode.simps)
  from el assms(1,2) obtain outp s i0 where
    fe: "for_each ?f (deeper self) xs = Inr (outp, s)"
    and i0': "indent_str (s\<lparr>indentation_level := indentation_level s - 1\<rparr>) = Inr i0"
    and r: "r = PyStr (''['' @ newline @ join ('','' @ newline) outp @ newline @ i0 @ '']'')"
    by (auto simp: encode_list.simps bind_eq_Inr Let_def deeper_def)
  have st: "u = deeper self" if "?f (deeper self) x = Inr (y, u)" for x y u
    using that by (auto simp: bind_eq_Inr dest: encode_state)
  have s: "s = deeper self"
    by (rule for_each_results [OF fe, THEN conjunct1]) (rule st)
  have all: "list_all2 (\<lambda>x y. ?f (deeper self) x = Inr (y, deeper self)) xs outp"
    by (rule for_each_results [OF fe, THEN conjunct2]) (rule st)
  have ne: "xs \<noteq> []"
    using assms(2) by (auto simp: primitives_only_def)
  then obtain x0 xs0 where xs: "xs = x0 # xs0"
    by (cases xs) auto
  from all xs obtain y0 where "?f (deeper self) x0 = Inr (y0, deeper self)"
    by (auto simp: list_all2_Cons1)
  then obtain i1 where i1: "indent_str (deeper self) = Inr i1"
    by (auto simp: bind_eq_Inr)
  have "list_all2 (\<lambda>x y. \<exists>e. encode P (deeper self) x = Inr (PyStr e, deeper self) \<and> y = (\<lambda>x e. i1 @ e) x e)
          xs outp"
  proof (rule list_all2_mono [OF all])
    fix x y assume a: "?f (deeper self) x = Inr (y, deeper self)"
    from a i1 obtain rv where rv: "encode P (deeper self) x = Inr (rv, deeper self)"
      and y: "str_add i1 rv = Inr y"
      by (auto simp: bind_eq_Inr)
    from y obtain e where "rv = PyStr e" "y = i1 @ e"
      by (cases rv) (auto simp: str_add_def)
    with rv show "\<exists>e. encode P (deeper self) x = Inr (PyStr e, deeper self) \<and> y = (\<lambda>x e. i1 @ e) x e"
      by (intro exI [of _ e]) simp
  qed
  from list_all2_map_fields [OF this] obtain es where
    es: "list_all2 (\<lambda>x e. encode P (deeper self) x = Inr (PyStr e, deeper self)) xs es"
    and outp: "outp = map2 (\<lambda>x e. i1 @ e) xs es"
    by (elim exE conjE)
  have len: "length xs = length es"
    using es by (rule list_all2_lengthD)
  have "outp = map (\<lambda>e. i1 @ e) es"
    unfolding outp using len by (induction xs es rule: list_induct2) auto
  then have "r = PyStr (expanded_sequence i0 i1 es)"
    using r by (simp add: expanded_sequence_def)
  moreover have "indent_str self = Inr i0"
    using i0' unfolding s deeper_back .
  ultimately show ?thesis
    using i1 es by (intro exI [of _ i0] exI [of _ i1] exI [of _ es] conjI)
qed


lemma QMK_encode_dict: "encode QMKJSONEncoder self (PyDict kvs) = Inl AttributeError"
  by (simp add: encode.simps encode_dict.simps)

section \<open>The claims\<close>

text \<open>
  C9. For every container at every nesting depth, the indentation depth after encoding
  it equals its value before the call: each increment around the descent into the
  children is matched by a decrement. Stated for every call of \<open>encode\<close> that returns
  (a sequence goes to \<open>encode_list\<close>, a mapping to \<open>encode_dict\<close>), on every
  printer and from every depth.
\<close>

theorem indentation_level_restored:
  assumes "encode P self obj = Inr (r, self')"
  shows "indentation_level self' = indentation_level self"
  using encode_state [OF assms] by simp

theorem indentation_level_restored_witness:
  "(case encode KeymapJSONEncoder default_encoder
           (PyDict [(''layers'', PyList [PyList [PyStr ''KC_A'', PyStr ''JSON_NEWLINE'',
                                                  PyDict [(''m'', PyList [PyInt 1])]],
                                          PyList []]),
                    (''notes'', PyList [PyInt 1, PyList [PyNone]])]) of
      Inl e \<Rightarrow> False
    | Inr (r, self') \<Rightarrow> indentation_level self' = indentation_level default_encoder)"
proof -
  let ?call = "encode KeymapJSONEncoder default_encoder
           (PyDict [(''layers'', PyList [PyList [PyStr ''KC_A'', PyStr ''JSON_NEWLINE'',
                                                  PyDict [(''m'', PyList [PyInt 1])]],
                                          PyList []]),
                    (''notes'', PyList [PyInt 1, PyList [PyNone]])])"
  have "case ?call of Inl e \<Rightarrow> False | Inr x \<Rightarrow> True"
    by code_simp
  then obtain r self' where h: "?call = Inr (r, self')"
    by (cases ?call) auto
  show ?thesis
    using indentation_level_restored [OF h] by (simp add: h)
qed

text \<open>
  C10. A pretty-printer constructed with an indent of 0, or with none, gets the indent
  4, so an indent of width 0 never takes effect; any other indent given is kept as it
  is. The depth starts at 0.
\<close>

theorem indent_default:
  "indent (QMKJSONEncoder_init a n k None sep c) = Some 4
   \<and> indent (QMKJSONEncoder_init a n k (Some 0) sep c) = Some 4
   \<and> (w \<noteq> 0 \<longrightarrow> indent (QMKJSONEncoder_init a n k (Some w) sep c) = Some w)
   \<and> indent (QMKJSONEncoder_init a n k ind sep c) \<noteq> Some 0
   \<and> indent (QMKJSONEncoder_init a n k ind sep c) \<noteq> None
   \<and> indentation_level (QMKJSONEncoder_init a n k ind sep c) = 0"
  by (cases ind)
     (simp_all add: QMKJSONEncoder_init_def JSONEncoder_init_def falsy_def Let_def
        json_encoder.extend_def qmk_encoder.fields_def)

theorem indent_default_witness:
  "(2 :: int) \<noteq> 0
   \<and> indent (QMKJSONEncoder_init True True False (Some 2) None True) = Some 2
   \<and> indent_str (QMKJSONEncoder_init True True False (Some 0) None True
                  \<lparr>indentation_level := 1\<rparr>) = Inr ''    ''"
proof -
  have "indent (QMKJSONEncoder_init True True False (Some 2) None True) = Some 2"
    using indent_default [of True True False None True 2 "Some 2"] by simp
  moreover have "indent_str (QMKJSONEncoder_init True True False (Some 0) None True
                  \<lparr>indentation_level := 1\<rparr>) = Inr ''    ''"
    by code_simp
  ultimately show ?thesis by simp
qed

text \<open>
  C2. The claim: the Numeric-Normalizing Printer writes a float equal to its integer
  truncation without fractional part (\<^verbatim>\<open>2.0\<close> as \<^verbatim>\<open>2\<close>) at the root, in a sequence and
  in a mapping, also on the default one-shot compact path. The code: \<^verbatim>\<open>encode\<close> calls
  \<^verbatim>\<open>iterencode\<close> in one shot, and with the C accelerator and no indent that builds
  \<^verbatim>\<open>c_make_encoder\<close>, which never sees \<open>floatstr\<close>: \<^verbatim>\<open>2.0\<close> is written \<^verbatim>\<open>2.0\<close> at
  all three positions. Without the accelerator, with an indent, or not in one shot,
  \<open>floatstr\<close> is used and \<^verbatim>\<open>2.0\<close> is written \<^verbatim>\<open>2\<close>.
\<close>

theorem KLE_one_shot_keeps_whole_float:
  "KLE_encode compact_encoder (PyFloat float_2_0) = Inr ''2.0''
   \<and> KLE_encode compact_encoder (PyList [PyFloat float_2_0, PyFloat float_2_5, PyInt 2])
       = Inr ''[2.0, 2.5, 2]''
   \<and> KLE_encode compact_encoder (PyDict [(''x'', PyFloat float_2_0)])
       = Inr (''{'' @ quoted ''x'' @ '': 2.0}'')
   \<and> KLE_encode (compact_encoder\<lparr>has_c_make_encoder := False\<rparr>)
         (PyList [PyFloat float_2_0, PyFloat float_2_5, PyInt 2]) = Inr ''[2, 2.5, 2]''
   \<and> KLE_encode (compact_encoder\<lparr>indent := Some 0\<rparr>) (PyFloat float_2_0) = Inr ''2''
   \<and> KLE_iterencode compact_encoder (PyFloat float_2_0) False = Inr ''2''"
  by code_simp

text \<open>
  C3. The claim: the rows of a keymap layer are indented exactly one level deeper than
  the enclosing bracket, and the brackets stand at the sequence's own indent level.
  The code, on the claim's own example as the one layer of a keymap with the default
  indent 4: the layer is at indentation level 2, whose \<^verbatim>\<open>indent_str\<close> is 8 spaces. The
  rows are split and joined as claimed, but each row is indented by
  \<^verbatim>\<open>indent_str * 3\<close>, 24 spaces, the closing bracket by \<^verbatim>\<open>indent_str * 2\<close>, 16
  spaces, and the opening bracket gets 8 spaces after the 8 its parent has written;
  the rows are joined by a newline with no comma between them.
\<close>

theorem Keymap_layer_indentation:
  "encode KeymapJSONEncoder default_encoder
     (PyDict [(''layers'', PyList [PyList [PyStr ''KC_A'', PyStr ''KC_B'',
                                            PyStr ''JSON_NEWLINE'', PyStr ''KC_C'']])])
   = Inr (PyStr (join newline
       [''{'',
        spaces 4 @ quoted ''layers'' @ '': ['',
        spaces 16 @ ''['',
        spaces 24 @ quoted ''KC_A'' @ '', '' @ quoted ''KC_B'',
        spaces 24 @ quoted ''KC_C'',
        spaces 16 @ '']'',
        spaces 4 @ '']'',
        ''}'']), default_encoder)"
  by code_simp

text \<open>
  C4. The claim: at depth 2 the Config-Document Printer writes \<^verbatim>\<open>vid\<close>, \<^verbatim>\<open>pid\<close>,
  \<^verbatim>\<open>device_ver\<close> first and the other keys after them. The code ranks another key of
  depth 2 by its own text, with no prefix, so a key that sorts below \<^verbatim>\<open>10vid\<close> is
  written first: here \<^verbatim>\<open>0\<close> comes before \<^verbatim>\<open>vid\<close>. The depth-1 order of the claim's
  example is as claimed.
\<close>

theorem Info_depth_2_key_before_vid:
  "encode InfoJSONEncoder default_encoder
     (PyDict [(''layouts'', PyDict []), (''manufacturer'', PyStr ''X''),
              (''usb'', PyDict [(''pid'', PyInt 1), (''vid'', PyInt 2), (''0'', PyInt 3)]),
              (''bootloader'', PyStr ''b'')])
   = Inr (PyStr (join newline
       [''{'',
        spaces 4 @ quoted ''manufacturer'' @ '': '' @ quoted ''X'' @ '','',
        spaces 4 @ quoted ''bootloader'' @ '': '' @ quoted ''b'' @ '','',
        spaces 4 @ quoted ''usb'' @ '': {'',
        spaces 8 @ quoted ''0'' @ '': 3,'',
        spaces 8 @ quoted ''vid'' @ '': 2,'',
        spaces 8 @ quoted ''pid'' @ '': 1'',
        spaces 4 @ ''},'',
        spaces 4 @ quoted ''layouts'' @ '': {}'',
        ''}'']), default_encoder)"
  by code_simp

text \<open>
  C6. The claim: every string, boolean and null is written by the JSON rules, also
  inside a keymap layer's rows. The code writes an element of a layer row as
  \<^verbatim>\<open>f'"{key}"'\<close>: the string \<^verbatim>\<open>a"b\<close> goes out with its double quote unescaped,
  \<^verbatim>\<open>True\<close> as \<^verbatim>\<open>"True"\<close> and \<^verbatim>\<open>None\<close> as \<^verbatim>\<open>"None"\<close>. The same values in an
  ordinary sequence, which goes through \<^verbatim>\<open>self.encode(element)\<close>, are written by
  the JSON rules.
\<close>

theorem Keymap_layer_row_not_escaped:
  "encode KeymapJSONEncoder default_encoder
     (PyDict [(''layers'', PyList [PyList [PyStr (''a'' @ [dquote] @ ''b''), PyBool True, PyNone]])])
   = Inr (PyStr (join newline
       [''{'',
        spaces 4 @ quoted ''layers'' @ '': ['',
        spaces 16 @ ''['',
        spaces 24 @ quoted (''a'' @ [dquote] @ ''b'') @ '', '' @ quoted ''True''
                  @ '', '' @ quoted ''None'',
        spaces 16 @ '']'',
        spaces 4 @ '']'',
        ''}'']), default_encoder)
   \<and> encode KeymapJSONEncoder default_encoder
         (PyList [PyStr (''a'' @ [dquote] @ ''b''), PyBool True, PyNone])
       = Inr (PyStr (''['' @ quoted (''a'' @ [backslash, dquote] @ ''b'') @ '', true, null]''),
              default_encoder)"
  by code_simp

text \<open>
  C7. The claim: for every Decimal in the document \<^verbatim>\<open>encode\<close> produces text. The code:
  \<^verbatim>\<open>encode_decimal\<close> returns an \<^verbatim>\<open>int\<close> or a \<^verbatim>\<open>float\<close>, not a string. Only the
  f-string of a mapping value turns it into text; in a sequence, inline or expanded,
  \<^verbatim>\<open>", ".join\<close> and \<^verbatim>\<open>indent_str + ...\<close> raise \<^verbatim>\<open>TypeError\<close>, and at the root the
  number itself is returned.
\<close>

theorem Decimal_in_sequence_raises:
  "encode InfoJSONEncoder default_encoder (PyList [PyDecimal decimal_2]) = Inl TypeError
   \<and> encode InfoJSONEncoder default_encoder (PyList [PyDecimal decimal_2_5, PyList []])
       = Inl TypeError
   \<and> encode KeymapJSONEncoder default_encoder (PyDict [(''a'', PyList [PyDecimal decimal_2])])
       = Inl TypeError
   \<and> encode InfoJSONEncoder default_encoder (PyDecimal decimal_2)
       = Inr (PyInt 2, default_encoder)
   \<and> encode InfoJSONEncoder default_encoder (PyDecimal decimal_2_5)
       = Inr (PyFloat float_2_5, default_encoder)
   \<and> encode InfoJSONEncoder default_encoder
         (PyDict [(''a'', PyDecimal decimal_2), (''b'', PyDecimal decimal_2_5)])
       = Inr (PyStr (join newline
           [''{'', spaces 4 @ quoted ''a'' @ '': 2,'', spaces 4 @ quoted ''b'' @ '': 2.5'', ''}'']),
              default_encoder)"
  by code_simp

text \<open>
  C8. The claim: at depth 2 of the Config-Document Printer no other key's rank falls
  among those of \<^verbatim>\<open>vid\<close>, \<^verbatim>\<open>pid\<close> and \<^verbatim>\<open>device_ver\<close>. The code gives these three the
  ranks \<^verbatim>\<open>10vid\<close>, \<^verbatim>\<open>11pid\<close>, \<^verbatim>\<open>12device_ver\<close> and every other key its own text, with
  no tier prefix (depth 1 prefixes \<^verbatim>\<open>50\<close>): the key \<^verbatim>\<open>11\<close> ranks between \<^verbatim>\<open>vid\<close> and
  \<^verbatim>\<open>pid\<close> and is written between them, and the key \<^verbatim>\<open>10vid\<close> has the rank of
  \<^verbatim>\<open>vid\<close>.
\<close>

theorem Info_depth_2_rank_interleaves:
  "Info_sort_dict (default_encoder\<lparr>indentation_level := 2\<rparr>) (''vid'', PyNone)
     < Info_sort_dict (default_encoder\<lparr>indentation_level := 2\<rparr>) (''11'', PyNone)
   \<and> Info_sort_dict (default_encoder\<lparr>indentation_level := 2\<rparr>) (''11'', PyNone)
     < Info_sort_dict (default_encoder\<lparr>indentation_level := 2\<rparr>) (''pid'', PyNone)
   \<and> Info_sort_dict (default_encoder\<lparr>indentation_level := 2\<rparr>) (''10vid'', PyNone)
     = Info_sort_dict (default_encoder\<lparr>indentation_level := 2\<rparr>) (''vid'', PyNone)
   \<and> encode InfoJSONEncoder default_encoder
         (PyDict [(''usb'', PyDict [(''pid'', PyStr ''0x0001''), (''11'', PyInt 0),
                                    (''vid'', PyStr ''0xFEED'')])])
       = Inr (PyStr (join newline
           [''{'',
            spaces 4 @ quoted ''usb'' @ '': {'',
            spaces 8 @ quoted ''vid'' @ '': '' @ quoted ''0xFEED'' @ '','',
            spaces 8 @ quoted ''11'' @ '': 0,'',
            spaces 8 @ quoted ''pid'' @ '': '' @ quoted ''0x0001'',
            spaces 4 @ ''}'',
            ''}'']), default_encoder)"
  by code_simp

text \<open>
  C5. The claim: a non-empty mapping whose values are all scalars is rendered inline
  on one line, and one container-valued child switches it to the expanded form. The
  code has no such switch for mappings: \<^verbatim>\<open>encode_dict\<close> never asks
  \<^verbatim>\<open>primitives_only\<close>. A mapping of two scalars is written on four lines by both
  schema printers, and at indentation level 4 the Config-Document Printer writes a
  mapping in the one-line form even when a value is a container.
\<close>

theorem scalar_mapping_rendered_expanded:
  "primitives_only (map snd [(''a'', PyInt 1), (''b'', PyStr ''x'')])
   \<and> encode InfoJSONEncoder default_encoder (PyDict [(''a'', PyInt 1), (''b'', PyStr ''x'')])
       = Inr (PyStr (join newline
           [''{'', spaces 4 @ quoted ''a'' @ '': 1,'',
            spaces 4 @ quoted ''b'' @ '': '' @ quoted ''x'', ''}'']), default_encoder)
   \<and> encode KeymapJSONEncoder default_encoder (PyDict [(''a'', PyInt 1), (''b'', PyStr ''x'')])
       = Inr (PyStr (join newline
           [''{'', spaces 4 @ quoted ''a'' @ '': 1,'',
            spaces 4 @ quoted ''b'' @ '': '' @ quoted ''x'', ''}'']), default_encoder)
   \<and> encode InfoJSONEncoder (default_encoder\<lparr>indentation_level := 4\<rparr>)
         (PyDict [(''b'', PyList [PyInt 1, PyList []]), (''a'', PyInt 1)])
       = Inr (PyStr (''{ '' @ quoted ''a'' @ '': 1, '' @ quoted ''b'' @ '': [''
                     @ join newline [[], spaces 20 @ ''1,'', spaces 20 @ ''[]'', spaces 16 @ ''] }'']),
              default_encoder\<lparr>indentation_level := 4\<rparr>)"
  by code_simp

text \<open>
  C5, as the code has it. A non-empty mapping is written in the expanded form, one
  \<^verbatim>\<open>key: value\<close> per line at the children's indent, whether its values are scalars
  or containers; only the Config-Document Printer at indentation level 4 writes it in
  the one-line form \<^verbatim>\<open>{ key: value, ... }\<close>, again whatever its values. The switch
  the claim describes is made for sequences (outside the Keymap printer's level-2 row
  grouping): inline \<^verbatim>\<open>[e1, e2]\<close> when no element is a container, expanded with one
  element per line otherwise.
\<close>

theorem layout_of_containers:
  "(kvs \<noteq> [] \<and> encode P self (PyDict kvs) = Inr (r, self') \<longrightarrow>
      (if P = InfoJSONEncoder \<and> indentation_level self = 4 then
         (\<exists>es. list_all2 (\<lambda>(k, v) e. \<exists>rv. encode P self v = Inr (rv, self) \<and> e = py_str rv)
                  (sort_key fst kvs) es
             \<and> r = PyStr (inline_mapping
                    (zip (map (\<lambda>(k, v). str_encoder self k) (sort_key fst kvs)) es)))
       else
         (\<exists>i0 i1 es. indent_str self = Inr i0 \<and> indent_str (deeper self) = Inr i1
             \<and> list_all2 (\<lambda>(k, v) e. \<exists>rv. encode P (deeper self) v = Inr (rv, deeper self)
                                         \<and> e = py_str rv)
                  (sort_key (if P = InfoJSONEncoder then Info_sort_dict (deeper self)
                             else Keymap_sort_dict (deeper self)) kvs) es
             \<and> r = PyStr (expanded_mapping i0 i1
                    (zip (map (\<lambda>(k, v). encode_basestring_ascii k)
                           (sort_key (if P = InfoJSONEncoder then Info_sort_dict (deeper self)
                                      else Keymap_sort_dict (deeper self)) kvs)) es)))))
   \<and> (\<not> (P = KeymapJSONEncoder \<and> indentation_level self = 2)
       \<and> encode P self (PyList xs) = Inr (q, self'') \<longrightarrow>
      (if primitives_only xs then
         (\<exists>es. list_all2 (\<lambda>x e. encode P self x = Inr (PyStr e, self)) xs es
             \<and> q = PyStr (inline_sequence es))
       else
         (\<exists>i0 i1 es. indent_str self = Inr i0 \<and> indent_str (deeper self) = Inr i1
             \<and> list_all2 (\<lambda>x e. encode P (deeper self) x = Inr (PyStr e, deeper self)) xs es
             \<and> q = PyStr (expanded_sequence i0 i1 es))))"
proof (intro conjI impI)
  assume a: "kvs \<noteq> [] \<and> encode P self (PyDict kvs) = Inr (r, self')"
  show "if P = InfoJSONEncoder \<and> indentation_level self = 4 then
         (\<exists>es. list_all2 (\<lambda>(k, v) e. \<exists>rv. encode P self v = Inr (rv, self) \<and> e = py_str rv)
                  (sort_key fst kvs) es
             \<and> r = PyStr (inline_mapping
                    (zip (map (\<lambda>(k, v). str_encoder self k) (sort_key fst kvs)) es)))
       else
         (\<exists>i0 i1 es. indent_str self = Inr i0 \<and> indent_str (deeper self) = Inr i1
             \<and> list_all2 (\<lambda>(k, v) e. \<exists>rv. encode P (deeper self) v = Inr (rv, deeper self)
                                         \<and> e = py_str rv)
                  (sort_key (if P = InfoJSONEncoder then Info_sort_dict (deeper self)
                             else Keymap_sort_dict (deeper self)) kvs) es
             \<and> r = PyStr (expanded_mapping i0 i1
                    (zip (map (\<lambda>(k, v). encode_basestring_ascii k)
                           (sort_key (if P = InfoJSONEncoder then Info_sort_dict (deeper self)
                                      else Keymap_sort_dict (deeper self)) kvs)) es)))"
  proof (cases "P = InfoJSONEncoder \<and> indentation_level self = 4")
    case True
    from a True have "encode InfoJSONEncoder self (PyDict kvs) = Inr (r, self')"
      by simp
    from mapping_inline [OF _ _ this] a True show ?thesis
      by (subst if_P [OF True]) simp
  next
    case False
    have "P \<noteq> QMKJSONEncoder"
      using a by (auto simp: QMK_encode_dict)
    with False have "P = KeymapJSONEncoder \<or> (P = InfoJSONEncoder \<and> indentation_level self \<noteq> 4)"
      by (cases P) auto
    from mapping_expanded [OF _ this, of kvs r self'] a show ?thesis
      by (subst if_not_P [OF False]) simp
  qed
next
  assume a: "\<not> (P = KeymapJSONEncoder \<and> indentation_level self = 2)
       \<and> encode P self (PyList xs) = Inr (q, self'')"
  show "if primitives_only xs then
         (\<exists>es. list_all2 (\<lambda>x e. encode P self x = Inr (PyStr e, self)) xs es
             \<and> q = PyStr (inline_sequence es))
       else
         (\<exists>i0 i1 es. indent_str self = Inr i0 \<and> indent_str (deeper self) = Inr i1
             \<and> list_all2 (\<lambda>x e. encode P (deeper self) x = Inr (PyStr e, deeper self)) xs es
             \<and> q = PyStr (expanded_sequence i0 i1 es))"
  proof (cases "primitives_only xs")
    case True
    from sequence_inline [OF _ True, of P self q self''] a show ?thesis
      by (subst if_P [OF True]) simp
  next
    case False
    from sequence_expanded [OF _ False, of P self q self''] a show ?thesis
      by (subst if_not_P [OF False]) simp
  qed
qed


theorem layout_of_containers_witness:
  "[(''b'', PyStr ''x''), (''a'', PyInt 1)] \<noteq> []
   \<and> encode KeymapJSONEncoder default_encoder (PyDict [(''b'', PyStr ''x''), (''a'', PyInt 1)])
       = Inr (PyStr (expanded_mapping [] (spaces 4)
                       [(quoted ''a'', ''1''), (quoted ''b'', quoted ''x'')]), default_encoder)
   \<and> (\<exists>i0 i1 es. indent_str default_encoder = Inr i0
          \<and> indent_str (deeper default_encoder) = Inr i1
          \<and> PyStr (expanded_mapping [] (spaces 4)
                       [(quoted ''a'', ''1''), (quoted ''b'', quoted ''x'')])
              = PyStr (expanded_mapping i0 i1
                  (zip (map (\<lambda>(k, v). encode_basestring_ascii k)
                         (sort_key (Keymap_sort_dict (deeper default_encoder))
                            [(''b'', PyStr ''x''), (''a'', PyInt 1)])) es)))
   \<and> \<not> (KeymapJSONEncoder = KeymapJSONEncoder \<and> indentation_level default_encoder = 2)
   \<and> primitives_only [PyInt 1, PyStr ''x'']
   \<and> encode KeymapJSONEncoder default_encoder (PyList [PyInt 1, PyStr ''x''])
       = Inr (PyStr (inline_sequence [''1'', quoted ''x'']), default_encoder)
   \<and> (\<exists>es. list_all2 (\<lambda>x e. encode KeymapJSONEncoder default_encoder x
                                = Inr (PyStr e, default_encoder)) [PyInt 1, PyStr ''x''] es
          \<and> PyStr (inline_sequence [''1'', quoted ''x'']) = PyStr (inline_sequence es))"
proof -
  let ?kvs = "[(''b'', PyStr ''x''), (''a'', PyInt 1)]"
  let ?r = "PyStr (expanded_mapping [] (spaces 4)
                       [(quoted ''a'', ''1''), (quoted ''b'', quoted ''x'')])"
  let ?xs = "[PyInt 1, PyStr ''x'']"
  let ?q = "PyStr (inline_sequence [''1'', quoted ''x''])"
  have h1: "encode KeymapJSONEncoder default_encoder (PyDict ?kvs) = Inr (?r, default_encoder)"
    by code_simp
  have h2: "encode KeymapJSONEncoder default_encoder (PyList ?xs) = Inr (?q, default_encoder)"
    by code_simp
  have l: "\<not> (KeymapJSONEncoder = KeymapJSONEncoder \<and> indentation_level default_encoder = 2)"
    by code_simp
  have p: "primitives_only ?xs"
    by code_simp
  note t = layout_of_containers [of ?kvs KeymapJSONEncoder default_encoder ?r default_encoder
                                    ?xs ?q default_encoder]
  have ne: "?kvs \<noteq> []"
    by simp
  from t [THEN conjunct1, THEN mp, OF conjI [OF ne h1]] have
    "\<exists>i0 i1 es. indent_str default_encoder = Inr i0 \<and> indent_str (deeper default_encoder) = Inr i1
       \<and> list_all2 (\<lambda>(k, v) e. \<exists>rv. encode KeymapJSONEncoder (deeper default_encoder) v
                                       = Inr (rv, deeper default_encoder) \<and> e = py_str rv)
            (sort_key (Keymap_sort_dict (deeper default_encoder)) ?kvs) es
       \<and> ?r = PyStr (expanded_mapping i0 i1
                  (zip (map (\<lambda>(k, v). encode_basestring_ascii k)
                         (sort_key (Keymap_sort_dict (deeper default_encoder)) ?kvs)) es))"
    by (simp only: printer.distinct if_False simp_thms)
  then obtain i0 i1 es where
    "indent_str default_encoder = Inr i0" "indent_str (deeper default_encoder) = Inr i1"
    "?r = PyStr (expanded_mapping i0 i1
                  (zip (map (\<lambda>(k, v). encode_basestring_ascii k)
                         (sort_key (Keymap_sort_dict (deeper default_encoder)) ?kvs)) es))"
    by (elim exE conjE)
  then have m: "\<exists>i0 i1 es. indent_str default_encoder = Inr i0
          \<and> indent_str (deeper default_encoder) = Inr i1
          \<and> ?r = PyStr (expanded_mapping i0 i1
                  (zip (map (\<lambda>(k, v). encode_basestring_ascii k)
                         (sort_key (Keymap_sort_dict (deeper default_encoder)) ?kvs)) es))"
    by (intro exI [of _ i0] exI [of _ i1] exI [of _ es] conjI)
  from t [THEN conjunct2, THEN mp, OF conjI [OF l h2]] have
    sq: "\<exists>es. list_all2 (\<lambda>x e. encode KeymapJSONEncoder default_encoder x
                                  = Inr (PyStr e, default_encoder)) ?xs es
             \<and> ?q = PyStr (inline_sequence es)"
    by (simp only: if_P [OF p])
  from ne h1 m l p h2 sq show ?thesis
    by (intro conjI)
qed

end
